theory Spec2Isabelle
  imports Main "HOL-Library.Word"
begin

section \<open>Strings and regular expressions of the host language\<close>

text \<open>
  A string of the source language is a sequence of 16-bit code units; \<open>length\<close>
  counts code units, as the source's \<open>.length\<close> does. A string literal of the source
  is written \<open>lit ''...''\<close>.
\<close>

type_synonym code_unit = "16 word"
type_synonym jsstring = "code_unit list"

definition lit :: "string \<Rightarrow> jsstring" where
  "lit s = map of_char s"

text \<open>
  Regular expressions, restricted to the operators the source's patterns use. A pattern
  of the form \<open>/^r$/\<close> (no flags) accepts a string when the whole string matches \<open>r\<close>;
  \<open>test\<close> on it is \<open>matches r\<close>, computed with derivatives. A pattern that is
  one unanchored character class accepts a string that has a code unit of the class;
  \<open>test\<close> on it is \<open>test_class\<close>.
\<close>

datatype re =
    Nul
  | Eps
  | Cls "code_unit \<Rightarrow> bool"
  | Seq re re
  | Alt re re
  | Star re

definition Plus :: "re \<Rightarrow> re" where
  \<comment> \<open>\<open>r+\<close>\<close>
  "Plus r = Seq r (Star r)"

definition Opt :: "re \<Rightarrow> re" where
  \<comment> \<open>\<open>r?\<close>\<close>
  "Opt r = Alt r Eps"

fun upto_times :: "re \<Rightarrow> nat \<Rightarrow> re" where
  \<comment> \<open>\<open>r{0,n}\<close>\<close>
  "upto_times r 0 = Eps"
| "upto_times r (Suc n) = Opt (Seq r (upto_times r n))"

fun exactly_times :: "re \<Rightarrow> nat \<Rightarrow> re" where
  \<comment> \<open>\<open>r{n}\<close>\<close>
  "exactly_times r 0 = Eps"
| "exactly_times r (Suc n) = Seq r (exactly_times r n)"

definition Rep :: "re \<Rightarrow> nat \<Rightarrow> nat \<Rightarrow> re" where
  \<comment> \<open>\<open>r{m,n}\<close>\<close>
  "Rep r m n = Seq (exactly_times r m) (upto_times r (n - m))"

fun nullable :: "re \<Rightarrow> bool" where
  "nullable Nul = False"
| "nullable Eps = True"
| "nullable (Cls p) = False"
| "nullable (Seq r s) = (nullable r \<and> nullable s)"
| "nullable (Alt r s) = (nullable r \<or> nullable s)"
| "nullable (Star r) = True"

fun deriv :: "code_unit \<Rightarrow> re \<Rightarrow> re" where
  "deriv c Nul = Nul"
| "deriv c Eps = Nul"
| "deriv c (Cls p) = (if p c then Eps else Nul)"
| "deriv c (Seq r s) =
     (if nullable r then Alt (Seq (deriv c r) s) (deriv c s) else Seq (deriv c r) s)"
| "deriv c (Alt r s) = Alt (deriv c r) (deriv c s)"
| "deriv c (Star r) = Seq (deriv c r) (Star r)"

fun matches :: "re \<Rightarrow> jsstring \<Rightarrow> bool" where
  "matches r [] = nullable r"
| "matches r (c # cs) = matches (deriv c r) cs"

definition test_class :: "(code_unit \<Rightarrow> bool) \<Rightarrow> jsstring \<Rightarrow> bool" where
  "test_class p s = list_ex p s"

subsection \<open>Character classes\<close>

definition is_space :: "code_unit \<Rightarrow> bool" where
  \<comment> \<open>\<open>\s\<close>: white space and line terminators\<close>
  "is_space c =
     (c = 0x09 \<or> c = 0x0A \<or> c = 0x0B \<or> c = 0x0C \<or> c = 0x0D \<or> c = 0x20 \<or> c = 0xA0
      \<or> c = 0x1680 \<or> (0x2000 \<le> c \<and> c \<le> 0x200A) \<or> c = 0x2028 \<or> c = 0x2029
      \<or> c = 0x202F \<or> c = 0x205F \<or> c = 0x3000 \<or> c = 0xFEFF)"

definition is_digit :: "code_unit \<Rightarrow> bool" where
  \<comment> \<open>\<open>\d\<close>\<close>
  "is_digit c = (0x30 \<le> c \<and> c \<le> 0x39)"

definition is_upper :: "code_unit \<Rightarrow> bool" where
  \<comment> \<open>\<open>[A-Z]\<close>\<close>
  "is_upper c = (0x41 \<le> c \<and> c \<le> 0x5A)"

definition is_lower :: "code_unit \<Rightarrow> bool" where
  \<comment> \<open>\<open>[a-z]\<close>\<close>
  "is_lower c = (0x61 \<le> c \<and> c \<le> 0x7A)"

definition is_special :: "code_unit \<Rightarrow> bool" where
  \<comment> \<open>\<open>[!@#$%^&*(),.?":{}|<>]\<close>\<close>
  "is_special c = (c \<in> set (lit ''!@#$%^&*(),.?\":{}|<>''))"

definition is_nonzero_digit :: "code_unit \<Rightarrow> bool" where
  \<comment> \<open>\<open>[1-9]\<close>\<close>
  "is_nonzero_digit c = (0x31 \<le> c \<and> c \<le> 0x39)"

definition at_sign :: code_unit where "at_sign = 0x40"
definition dot_sign :: code_unit where "dot_sign = 0x2E"
definition plus_sign :: code_unit where "plus_sign = 0x2B"

definition not_space_at :: "code_unit \<Rightarrow> bool" where
  \<comment> \<open>\<open>[^\s@]\<close>\<close>
  "not_space_at c = (\<not> is_space c \<and> c \<noteq> at_sign)"

section \<open>Field validators\<close>

definition emailRegex :: re where
  \<comment> \<open>\<open>/^[^\s@]+@[^\s@]+\.[^\s@]+$/\<close>\<close>
  "emailRegex =
     Seq (Plus (Cls not_space_at))
       (Seq (Cls (\<lambda>c. c = at_sign))
         (Seq (Plus (Cls not_space_at))
           (Seq (Cls (\<lambda>c. c = dot_sign)) (Plus (Cls not_space_at)))))"

definition validateEmail :: "jsstring \<Rightarrow> bool" where
  "validateEmail email = matches emailRegex email"

definition phoneRegex :: re where
  \<comment> \<open>\<open>/^\+?[1-9]\d{1,14}$/\<close>\<close>
  "phoneRegex =
     Seq (Opt (Cls (\<lambda>c. c = plus_sign)))
       (Seq (Cls is_nonzero_digit) (Rep (Cls is_digit) 1 14))"

definition strip_space :: "jsstring \<Rightarrow> jsstring" where
  \<comment> \<open>\<open>s.replace(/\s/g, "")\<close>\<close>
  "strip_space s = filter (\<lambda>c. \<not> is_space c) s"

definition validatePhone :: "jsstring \<Rightarrow> bool" where
  "validatePhone phone = matches phoneRegex (strip_space phone)"


section \<open>Availability checks against the external data service\<close>

text \<open>
  The profile table of the external data service is read through one operation,
  a selection of the rows whose column equals a value. Its awaited response is the pair
  \<open>{data, error}\<close> that the source destructures (the client resolves with the error as a
  value). The service is a parameter of the model, and so is the host's \<open>toLowerCase\<close>.
  Each check returns the requests it issued, in order, beside its result.
\<close>

record ('row, 'err) query_response =
  data :: "'row list option"
  error :: "'err option"

record availability =
  isValid :: bool
  message :: jsstring

datatype check_effect =
    SelectProfiles jsstring jsstring
  | ConsoleError jsstring

definition checkEmailAvailability ::
  "(jsstring \<Rightarrow> jsstring) \<Rightarrow> (jsstring \<Rightarrow> jsstring \<Rightarrow> ('row, 'err) query_response) \<Rightarrow>
   jsstring \<Rightarrow> check_effect list \<times> availability" where
  "checkEmailAvailability toLowerCase select_eq email =
     (if \<not> validateEmail email
      then ([], \<lparr>isValid = False, message = lit ''Please enter a valid email format''\<rparr>)
      else
        let resp = select_eq (lit ''email'') (toLowerCase email);
            q = SelectProfiles (lit ''email'') (toLowerCase email)
        in if error resp \<noteq> None
           then ([q, ConsoleError (lit ''Error checking email:'')],
                 \<lparr>isValid = False, message = lit ''Error checking email. Please try again.''\<rparr>)
           else (case data resp of
                   Some (row # rows) \<Rightarrow>
                     ([q], \<lparr>isValid = False, message = lit ''This email is already registered''\<rparr>)
                 | _ \<Rightarrow> ([q], \<lparr>isValid = True, message = lit ''Email is available''\<rparr>)))"

definition checkPhoneAvailability ::
  "(jsstring \<Rightarrow> jsstring \<Rightarrow> ('row, 'err) query_response) \<Rightarrow>
   jsstring \<Rightarrow> check_effect list \<times> availability" where
  "checkPhoneAvailability select_eq phone =
     (if phone = [] then ([], \<lparr>isValid = True, message = []\<rparr>)
      else if \<not> validatePhone phone
      then ([], \<lparr>isValid = False, message = lit ''Please enter a valid phone number''\<rparr>)
      else
        let cleanPhone = strip_space phone;
            resp = select_eq (lit ''phone'') cleanPhone;
            q = SelectProfiles (lit ''phone'') cleanPhone
        in if error resp \<noteq> None
           then ([q, ConsoleError (lit ''Error checking phone:'')],
                 \<lparr>isValid = False, message = lit ''Error checking phone. Please try again.''\<rparr>)
           else (case data resp of
                   Some (row # rows) \<Rightarrow>
                     ([q], \<lparr>isValid = False, message = lit ''This phone number is already registered''\<rparr>)
                 | _ \<Rightarrow> ([q], \<lparr>isValid = True, message = lit ''Phone number is available''\<rparr>)))"

section \<open>Password strength\<close>

record strength_checks =
  length_chk :: bool
  uppercase :: bool
  lowercase :: bool
  number :: bool
  special :: bool

record password_strength =
  score :: nat
  label :: jsstring
  color :: jsstring
  bgColor :: jsstring
  checks :: strength_checks

text \<open>The arms of the \<open>switch\<close> on the score, in the order of the source.\<close>

datatype switch_arm = Case_0_1 | Case_2 | Case_3 | Case_4 | Case_5 | Default

definition switch_on_score :: "nat \<Rightarrow> switch_arm" where
  "switch_on_score n =
     (if n = 0 \<or> n = 1 then Case_0_1
      else if n = 2 then Case_2
      else if n = 3 then Case_3
      else if n = 4 then Case_4
      else if n = 5 then Case_5
      else Default)"

fun arm_label :: "switch_arm \<Rightarrow> jsstring" where
  "arm_label Case_0_1 = lit ''Very Weak''"
| "arm_label Case_2 = lit ''Weak''"
| "arm_label Case_3 = lit ''Fair''"
| "arm_label Case_4 = lit ''Good''"
| "arm_label Case_5 = lit ''Strong''"
| "arm_label Default = lit ''Very Weak''"

fun arm_color :: "switch_arm \<Rightarrow> jsstring" where
  "arm_color Case_0_1 = lit ''text-red-600''"
| "arm_color Case_2 = lit ''text-orange-600''"
| "arm_color Case_3 = lit ''text-yellow-600''"
| "arm_color Case_4 = lit ''text-blue-600''"
| "arm_color Case_5 = lit ''text-green-600''"
| "arm_color Default = lit ''text-red-600''"

fun arm_bgColor :: "switch_arm \<Rightarrow> jsstring" where
  "arm_bgColor Case_0_1 = lit ''bg-red-500''"
| "arm_bgColor Case_2 = lit ''bg-orange-500''"
| "arm_bgColor Case_3 = lit ''bg-yellow-500''"
| "arm_bgColor Case_4 = lit ''bg-blue-500''"
| "arm_bgColor Case_5 = lit ''bg-green-500''"
| "arm_bgColor Default = lit ''bg-red-500''"

definition password_checks :: "jsstring \<Rightarrow> strength_checks" where
  "password_checks pw =
     \<lparr>length_chk = (length pw \<ge> 8),
      uppercase = test_class is_upper pw,
      lowercase = test_class is_lower pw,
      number = test_class is_digit pw,
      special = test_class is_special pw\<rparr>"

definition object_values :: "strength_checks \<Rightarrow> bool list" where
  "object_values c = [length_chk c, uppercase c, lowercase c, number c, special c]"

definition calculatePasswordStrength :: "jsstring \<Rightarrow> password_strength" where
  "calculatePasswordStrength pw =
     (let cs = password_checks pw;
          sc = length (filter id (object_values cs));
          arm = switch_on_score sc
      in \<lparr>score = sc, label = arm_label arm, color = arm_color arm,
          bgColor = arm_bgColor arm, checks = cs\<rparr>)"

definition validatePassword :: "jsstring \<Rightarrow> bool" where
  "validatePassword pw =
     (let cs = checks (calculatePasswordStrength pw)
      in length_chk cs \<and> uppercase cs \<and> lowercase cs \<and> number cs \<and> special cs)"

section \<open>The authentication form component\<close>

datatype field = Email | Password | ConfirmPassword | FullName | Phone

datatype provider = Google | Facebook

record form_data =
  email :: jsstring
  password :: jsstring
  confirmPassword :: "jsstring option"
  fullName :: "jsstring option"
  phone :: "jsstring option"

record validation =
  isChecking :: bool
  isValid :: "bool option"
  message :: jsstring

text \<open>
  The component's state hooks. An object with optional keys is a map from its keys;
  a key that is absent maps to \<open>None\<close>. An optional string field is \<open>None\<close> when undefined.
\<close>

record state =
  isLogin :: bool
  showPassword :: bool
  showConfirmPassword :: bool
  isLoading :: bool
  isSocialLoading :: "provider option"
  rememberMe :: bool
  formData :: form_data
  errors :: "field \<rightharpoonup> jsstring"
  emailValidation :: validation
  phoneValidation :: validation
  touchedFields :: "field \<rightharpoonup> bool"

definition initial_state :: state where
  "initial_state =
     \<lparr>isLogin = True, showPassword = False, showConfirmPassword = False, isLoading = False,
      isSocialLoading = None, rememberMe = False,
      formData = \<lparr>email = [], password = [], confirmPassword = Some [], fullName = Some [],
                  phone = Some []\<rparr>,
      errors = Map.empty,
      emailValidation = \<lparr>isChecking = False, isValid = None, message = []\<rparr>,
      phoneValidation = \<lparr>isChecking = False, isValid = None, message = []\<rparr>,
      touchedFields = Map.empty\<rparr>"

definition truthy :: "jsstring option \<Rightarrow> bool" where
  \<comment> \<open>an optional string in a condition: undefined and the empty string are false\<close>
  "truthy v = (case v of None \<Rightarrow> False | Some s \<Rightarrow> s \<noteq> [])"

definition object_keys :: "(field \<rightharpoonup> 'a) \<Rightarrow> field list" where
  "object_keys m = filter (\<lambda>f. m f \<noteq> None) [Email, Password, ConfirmPassword, FullName, Phone]"

definition resetForm :: "state \<Rightarrow> state" where
  "resetForm s =
     s\<lparr>formData := \<lparr>email = [], password = [], confirmPassword = Some [], fullName = Some [],
                     phone = Some []\<rparr>,
       errors := Map.empty,
       touchedFields := Map.empty,
       emailValidation := \<lparr>isChecking = False, isValid = None, message = []\<rparr>,
       phoneValidation := \<lparr>isChecking = False, isValid = None, message = []\<rparr>\<rparr>"

definition toggleMode :: "state \<Rightarrow> state" where
  "toggleMode s = resetForm (s\<lparr>isLogin := \<not> isLogin s\<rparr>)"

text \<open>
  The two tab buttons above the form: their click handlers are
  \<open>!isLoading && !isSocialLoading && setIsLogin(true)\<close> and the same with \<open>false\<close>.
\<close>

definition loginTab_onClick :: "state \<Rightarrow> state" where
  "loginTab_onClick s =
     (if \<not> isLoading s \<and> isSocialLoading s = None then s\<lparr>isLogin := True\<rparr> else s)"

definition registerTab_onClick :: "state \<Rightarrow> state" where
  "registerTab_onClick s =
     (if \<not> isLoading s \<and> isSocialLoading s = None then s\<lparr>isLogin := False\<rparr> else s)"

subsection \<open>Validation of the whole form\<close>

definition email_errors :: "state \<Rightarrow> (field \<rightharpoonup> jsstring) \<Rightarrow> (field \<rightharpoonup> jsstring)" where
  "email_errors s e =
     (if email (formData s) = [] then e(Email \<mapsto> lit ''Email is required'')
      else if \<not> validateEmail (email (formData s))
      then e(Email \<mapsto> lit ''Please enter a valid email address'')
      else if \<not> isLogin s \<and> isValid (emailValidation s) = Some False
      then e(Email \<mapsto> message (emailValidation s))
      else e)"

definition password_errors :: "state \<Rightarrow> (field \<rightharpoonup> jsstring) \<Rightarrow> (field \<rightharpoonup> jsstring)" where
  "password_errors s e =
     (if password (formData s) = [] then e(Password \<mapsto> lit ''Password is required'')
      else if \<not> isLogin s \<and> \<not> validatePassword (password (formData s))
      then e(Password \<mapsto> lit ''Password must meet all requirements'')
      else e)"

definition fullName_errors :: "state \<Rightarrow> (field \<rightharpoonup> jsstring) \<Rightarrow> (field \<rightharpoonup> jsstring)" where
  "fullName_errors s e =
     (case fullName (formData s) of
        None \<Rightarrow> e(FullName \<mapsto> lit ''Full name is required'')
      | Some n \<Rightarrow>
          if n = [] then e(FullName \<mapsto> lit ''Full name is required'')
          else if length n < 2 then e(FullName \<mapsto> lit ''Full name must be at least 2 characters'')
          else e)"

definition confirmPassword_errors ::
  "state \<Rightarrow> (field \<rightharpoonup> jsstring) \<Rightarrow> (field \<rightharpoonup> jsstring)" where
  "confirmPassword_errors s e =
     (if \<not> truthy (confirmPassword (formData s))
      then e(ConfirmPassword \<mapsto> lit ''Please confirm your password'')
      else if Some (password (formData s)) \<noteq> confirmPassword (formData s)
      then e(ConfirmPassword \<mapsto> lit ''Passwords do not match'')
      else e)"

definition phone_errors :: "state \<Rightarrow> (field \<rightharpoonup> jsstring) \<Rightarrow> (field \<rightharpoonup> jsstring)" where
  "phone_errors s e =
     (case phone (formData s) of
        None \<Rightarrow> e
      | Some p \<Rightarrow>
          if p = [] then e
          else if \<not> validatePhone p then e(Phone \<mapsto> lit ''Please enter a valid phone number'')
          else if isValid (phoneValidation s) = Some False
          then e(Phone \<mapsto> message (phoneValidation s))
          else e)"

definition in_progress_errors ::
  "state \<Rightarrow> (field \<rightharpoonup> jsstring) \<Rightarrow> (field \<rightharpoonup> jsstring)" where
  "in_progress_errors s e =
     (let e1 = (if isChecking (emailValidation s)
                then e(Email \<mapsto> lit ''Please wait while we check email availability'')
                else e)
      in if isChecking (phoneValidation s)
         then e1(Phone \<mapsto> lit ''Please wait while we check phone availability'')
         else e1)"

definition newErrors :: "state \<Rightarrow> (field \<rightharpoonup> jsstring)" where
  "newErrors s =
     (let e = password_errors s (email_errors s Map.empty)
      in if \<not> isLogin s
         then in_progress_errors s
                (phone_errors s (confirmPassword_errors s (fullName_errors s e)))
         else e)"

definition validateForm :: "state \<Rightarrow> state \<times> bool" where
  \<comment> \<open>the state after \<open>setErrors(newErrors)\<close>, and the value returned\<close>
  "validateForm s = (s\<lparr>errors := newErrors s\<rparr>, length (object_keys (newErrors s)) = 0)"

subsection \<open>Submission\<close>

text \<open>
  The external identity provider answers each call with an optional error; the modal
  notification answers the resend offer with the user's choice. These answers are the
  environment of a submission. A submission yields the calls and notifications it made,
  in order, and the state after its state updates. Of a notification the icon, title,
  text, buttons and timer are kept.
\<close>

datatype auth_error = AuthError (error_message: jsstring)

datatype icon = IconError | IconSuccess | IconWarning

record dialog =
  icon :: icon
  title :: jsstring
  body :: jsstring
  showCancelButton :: bool
  confirmButtonText :: "jsstring option"
  cancelButtonText :: "jsstring option"
  timer :: "nat option"

datatype effect =
    SwalFire dialog
  | SignInWithPassword jsstring jsstring
  | AuthResend jsstring
  | SignUp jsstring jsstring "jsstring option" "jsstring option"
  | Navigate jsstring

record env =
  signInError :: "auth_error option"
  didRequestResend :: bool
  resendError :: "auth_error option"
  signUpError :: "auth_error option"

definition plain_dialog :: "icon \<Rightarrow> jsstring \<Rightarrow> jsstring \<Rightarrow> dialog" where
  "plain_dialog i t b =
     \<lparr>icon = i, title = t, body = b, showCancelButton = False, confirmButtonText = None,
      cancelButtonText = None, timer = None\<rparr>"

definition validationErrorDialog :: dialog where
  "validationErrorDialog =
     plain_dialog IconError (lit ''Validation Error'') (lit ''Please fix the errors in the form'')"

definition resendOfferDialog :: dialog where
  "resendOfferDialog =
     \<lparr>icon = IconWarning, title = lit ''Email Not Confirmed'',
      body = lit ''Your account exists but you need to verify your email address before logging in.'',
      showCancelButton = True,
      confirmButtonText = Some (lit ''Resend Verification Email''),
      cancelButtonText = Some (lit ''OK''),
      timer = None\<rparr>"

definition resendFailedDialog :: "auth_error \<Rightarrow> dialog" where
  "resendFailedDialog err = plain_dialog IconError (lit ''Resend Failed'') (error_message err)"

definition verificationSentDialog :: dialog where
  "verificationSentDialog =
     plain_dialog IconSuccess (lit ''Verification Email Sent!'')
       (lit ''A new verification link has been sent to your email address. Please check your inbox.'')"

definition loginFailedDialog :: "auth_error \<Rightarrow> dialog" where
  "loginFailedDialog err =
     plain_dialog IconError (lit ''Login Failed'')
       (if error_message err \<noteq> [] then error_message err
        else lit ''Invalid email or password. Please try again.'')"

definition loginSuccessDialog :: dialog where
  "loginSuccessDialog =
     (plain_dialog IconSuccess (lit ''Login berhasil!'')
        (lit ''Anda akan diarahkan ke halaman utama dalam 2 detik.''))\<lparr>timer := Some 2000\<rparr>"

definition registrationFailedDialog :: "auth_error \<Rightarrow> dialog" where
  "registrationFailedDialog err =
     plain_dialog IconError (lit ''Registration Failed'') (error_message err)"

definition registrationSuccessDialog :: dialog where
  "registrationSuccessDialog =
     (plain_dialog IconSuccess (lit ''Registration Successful!'')
        (lit ''Please check your email to verify your account.''))\<lparr>timer := Some 2000\<rparr>"

definition login_flow :: "env \<Rightarrow> state \<Rightarrow> effect list \<times> state" where
  "login_flow ev s =
     (let call = SignInWithPassword (email (formData s)) (password (formData s))
      in case signInError ev of
           Some err \<Rightarrow>
             if error_message err = lit ''Email not confirmed''
             then (if didRequestResend ev
                   then (case resendError ev of
                           Some rerr \<Rightarrow>
                             ([call, SwalFire resendOfferDialog, AuthResend (email (formData s)),
                               SwalFire (resendFailedDialog rerr)], s)
                         | None \<Rightarrow>
                             ([call, SwalFire resendOfferDialog, AuthResend (email (formData s)),
                               SwalFire verificationSentDialog], s))
                   else ([call, SwalFire resendOfferDialog], s))
             else ([call, SwalFire (loginFailedDialog err)], s)
         | None \<Rightarrow>
             ([call, SwalFire loginSuccessDialog, Navigate (lit ''/'')], resetForm s))"

definition register_flow :: "env \<Rightarrow> state \<Rightarrow> effect list \<times> state" where
  "register_flow ev s =
     (let call = SignUp (email (formData s)) (password (formData s)) (fullName (formData s))
                   (phone (formData s))
      in case signUpError ev of
           Some err \<Rightarrow> ([call, SwalFire (registrationFailedDialog err)], s)
         | None \<Rightarrow> ([call, SwalFire registrationSuccessDialog], resetForm (s\<lparr>isLogin := True\<rparr>)))"

definition handleSubmit :: "env \<Rightarrow> state \<Rightarrow> effect list \<times> state" where
  "handleSubmit ev s =
     (case validateForm s of
        (s1, False) \<Rightarrow> ([SwalFire validationErrorDialog], s1)
      | (s1, True) \<Rightarrow>
          let (effs, s2) = (if isLogin s then login_flow ev (s1\<lparr>isLoading := True\<rparr>)
                            else register_flow ev (s1\<lparr>isLoading := True\<rparr>))
          in (effs, s2\<lparr>isLoading := False\<rparr>))"

subsection \<open>Editing a field\<close>

text \<open>
  \<open>handleInputChange\<close> is asynchronous. It runs up to the availability check it awaits, if
  any, and resumes when that check settles; other handlers may run in between. It reads
  \<open>errors\<close>, \<open>touchedFields\<close> and \<open>isLogin\<close> as they were when it was called. An error key
  set to \<open>undefined\<close> is read like an absent key wherever the errors of the state are
  read, and is modelled as absent.
\<close>

definition set_field :: "field \<Rightarrow> jsstring \<Rightarrow> form_data \<Rightarrow> form_data" where
  \<comment> \<open>\<open>{ ...prev, [field]: value }\<close>\<close>
  "set_field f v fd =
     (case f of
        Email \<Rightarrow> fd\<lparr>email := v\<rparr>
      | Password \<Rightarrow> fd\<lparr>password := v\<rparr>
      | ConfirmPassword \<Rightarrow> fd\<lparr>confirmPassword := Some v\<rparr>
      | FullName \<Rightarrow> fd\<lparr>fullName := Some v\<rparr>
      | Phone \<Rightarrow> fd\<lparr>phone := Some v\<rparr>)"

type_synonym pending_check = "field \<times> jsstring"

definition handleInputChange_begin ::
  "field \<Rightarrow> jsstring \<Rightarrow> state \<Rightarrow> state \<times> pending_check option" where
  \<comment> \<open>the handler up to its \<open>await\<close>, with the check it then waits for; or the whole
      handler when it awaits nothing\<close>
  "handleInputChange_begin f v s =
     (let s1 = s\<lparr>formData := set_field f v (formData s)\<rparr>;
          s2 = (if truthy (errors s f) then s1\<lparr>errors := (errors s1)(f := None)\<rparr> else s1);
          s3 = (if touchedFields s f \<noteq> Some True
                then s2\<lparr>touchedFields := (touchedFields s2)(f \<mapsto> True)\<rparr> else s2)
      in if f = Email \<and> \<not> isLogin s \<and> length v > 0
         then (s3\<lparr>emailValidation :=
                    \<lparr>isChecking = True, isValid = None,
                     message = lit ''Checking availability...''\<rparr>\<rparr>, Some (f, v))
         else if f = Phone \<and> \<not> isLogin s \<and> length v > 0
         then (s3\<lparr>phoneValidation :=
                    \<lparr>isChecking = True, isValid = None,
                     message = lit ''Checking availability...''\<rparr>\<rparr>, Some (f, v))
         else if isLogin s \<or> length v = 0
         then (if f = Email
               then s3\<lparr>emailValidation := \<lparr>isChecking = False, isValid = None, message = []\<rparr>\<rparr>
               else if f = Phone
               then s3\<lparr>phoneValidation := \<lparr>isChecking = False, isValid = None, message = []\<rparr>\<rparr>
               else s3, None)
         else (s3, None))"

definition handleInputChange_resume ::
  "pending_check \<Rightarrow> availability option \<Rightarrow> state \<Rightarrow> state" where
  \<comment> \<open>the handler from its \<open>await\<close> on: the check returned a result, or raised (\<open>None\<close>)\<close>
  "handleInputChange_resume c outcome s =
     (if fst c = Email
      then s\<lparr>emailValidation :=
               (case outcome of
                  Some r \<Rightarrow> \<lparr>isChecking = False, isValid = Some (availability.isValid r),
                             message = availability.message r\<rparr>
                | None \<Rightarrow> \<lparr>isChecking = False, isValid = Some False,
                           message = lit ''Error checking email availability''\<rparr>)\<rparr>
      else if fst c = Phone
      then s\<lparr>phoneValidation :=
               (case outcome of
                  Some r \<Rightarrow> \<lparr>isChecking = False, isValid = Some (availability.isValid r),
                             message = availability.message r\<rparr>
                | None \<Rightarrow> \<lparr>isChecking = False, isValid = Some False,
                           message = lit ''Error checking phone availability''\<rparr>)\<rparr>
      else s)"

text \<open>
  A session of the component: its state, and the availability checks that were started
  and have not settled yet, oldest first. The user edits a field, or one of the checks
  in flight settles; checks settle in any order.
\<close>

record session =
  current :: state
  in_flight :: "pending_check list"

datatype event = Input field jsstring | Settles nat

definition session_step ::
  "(jsstring \<Rightarrow> jsstring) \<Rightarrow> (jsstring \<Rightarrow> jsstring \<Rightarrow> ('row, 'err) query_response) \<Rightarrow>
   event \<Rightarrow> session \<Rightarrow> session" where
  "session_step toLowerCase select_eq e ss =
     (case e of
        Input f v \<Rightarrow>
          (case handleInputChange_begin f v (current ss) of
             (s', None) \<Rightarrow> ss\<lparr>current := s'\<rparr>
           | (s', Some c) \<Rightarrow> \<lparr>current = s', in_flight = in_flight ss @ [c]\<rparr>)
      | Settles i \<Rightarrow>
          if i < length (in_flight ss)
          then let c = in_flight ss ! i;
                   r = (if fst c = Email
                        then snd (checkEmailAvailability toLowerCase select_eq (snd c))
                        else snd (checkPhoneAvailability select_eq (snd c)))
               in \<lparr>current = handleInputChange_resume c (Some r) (current ss),
                   in_flight = take i (in_flight ss) @ drop (Suc i) (in_flight ss)\<rparr>
          else ss)"

fun session_run ::
  "(jsstring \<Rightarrow> jsstring) \<Rightarrow> (jsstring \<Rightarrow> jsstring \<Rightarrow> ('row, 'err) query_response) \<Rightarrow>
   event list \<Rightarrow> session \<Rightarrow> session" where
  "session_run toLowerCase select_eq [] ss = ss"
| "session_run toLowerCase select_eq (e # es) ss =
     session_run toLowerCase select_eq es (session_step toLowerCase select_eq e ss)"

section \<open>Reference notions\<close>

subsection \<open>The language of a regular expression\<close>

definition lang_conc :: "jsstring set \<Rightarrow> jsstring set \<Rightarrow> jsstring set" where
  "lang_conc A B = {u @ v | u v. u \<in> A \<and> v \<in> B}"

inductive_set lang_star :: "jsstring set \<Rightarrow> jsstring set" for A :: "jsstring set" where
  star_empty: "[] \<in> lang_star A"
| star_step: "u \<in> A \<Longrightarrow> v \<in> lang_star A \<Longrightarrow> u @ v \<in> lang_star A"

fun lang :: "re \<Rightarrow> jsstring set" where
  "lang Nul = {}"
| "lang Eps = {[]}"
| "lang (Cls p) = {[c] | c. p c}"
| "lang (Seq r s) = lang_conc (lang r) (lang s)"
| "lang (Alt r s) = lang r \<union> lang s"
| "lang (Star r) = lang_star (lang r)"

subsection \<open>The properties as the specification words them\<close>

text \<open>
  The shape of an accepted email address: one or more code units that are neither white
  space nor \<open>@\<close>, then \<open>@\<close>, then one or more such code units, then a dot, then one or
  more such code units.
\<close>

definition email_shape :: "jsstring \<Rightarrow> bool" where
  "email_shape s =
     (\<exists>l d t. s = l @ at_sign # d @ dot_sign # t \<and> l \<noteq> [] \<and> d \<noteq> [] \<and> t \<noteq> [] \<and>
        list_all not_space_at l \<and> list_all not_space_at d \<and> list_all not_space_at t)"

text \<open>A dot occurs somewhere after the last \<open>@\<close> of the string.\<close>

definition dot_after_at :: "jsstring \<Rightarrow> bool" where
  "dot_after_at s = (\<exists>p q. s = p @ at_sign # q \<and> at_sign \<notin> set q \<and> dot_sign \<in> set q)"

text \<open>
  The shape of an accepted phone number, once white space is removed: an optional
  leading \<open>+\<close>, then between 2 and 15 digits in all, the first of which is not \<open>0\<close>.
\<close>

definition phone_digits :: "jsstring \<Rightarrow> jsstring" where
  "phone_digits t = (case t of [] \<Rightarrow> [] | c # cs \<Rightarrow> if c = plus_sign then cs else t)"

definition phone_shape :: "jsstring \<Rightarrow> bool" where
  "phone_shape t =
     (let ds = phone_digits t
      in 2 \<le> length ds \<and> length ds \<le> 15 \<and> list_all is_digit ds \<and> hd ds \<noteq> 0x30)"

text \<open>
  The five criteria of password strength: at least 8 code units, a letter \<open>A\<close> to \<open>Z\<close>,
  a letter \<open>a\<close> to \<open>z\<close>, a digit \<open>0\<close> to \<open>9\<close>, and one of the special characters
  \<open>!@#$%^&*(),.?":{}|<>\<close>.
\<close>

datatype criterion = MinLength | HasUppercase | HasLowercase | HasDigit | HasSpecial

fun satisfies :: "jsstring \<Rightarrow> criterion \<Rightarrow> bool" where
  "satisfies pw MinLength = (8 \<le> length pw)"
| "satisfies pw HasUppercase = list_ex is_upper pw"
| "satisfies pw HasLowercase = list_ex is_lower pw"
| "satisfies pw HasDigit = list_ex is_digit pw"
| "satisfies pw HasSpecial = list_ex is_special pw"

definition criteria_count :: "jsstring \<Rightarrow> nat" where
  "criteria_count pw = card {c. satisfies pw c}"

text \<open>The fixed table from scores to labels.\<close>

definition label_table :: "nat \<rightharpoonup> jsstring" where
  "label_table =
     [0 \<mapsto> lit ''Very Weak'', 1 \<mapsto> lit ''Very Weak'', 2 \<mapsto> lit ''Weak'', 3 \<mapsto> lit ''Fair'',
      4 \<mapsto> lit ''Good'', 5 \<mapsto> lit ''Strong'']"

text \<open>The unknown state of an availability check: not checking, no verdict, no message.\<close>

definition unknown_validation :: validation where
  "unknown_validation = \<lparr>isChecking = False, isValid = None, message = []\<rparr>"

definition empty_form :: form_data where
  "empty_form =
     \<lparr>email = [], password = [], confirmPassword = Some [], fullName = Some [], phone = Some []\<rparr>"

definition is_reset :: "state \<Rightarrow> bool" where
  "is_reset s =
     (formData s = empty_form \<and> errors s = Map.empty \<and> touchedFields s = Map.empty \<and>
      emailValidation s = unknown_validation \<and> phoneValidation s = unknown_validation)"

fun is_SignUp :: "effect \<Rightarrow> bool" where
  "is_SignUp (SignUp e p n ph) = True"
| "is_SignUp _ = False"

fun shown :: "effect list \<Rightarrow> dialog list" where
  \<comment> \<open>the notifications among the effects, in order\<close>
  "shown [] = []"
| "shown (SwalFire d # es) = d # shown es"
| "shown (e # es) = shown es"

subsection \<open>Sample inputs\<close>

definition filled_form :: form_data where
  "filled_form =
     \<lparr>email = lit ''a@b.co'', password = lit ''Passw0rd!'',
      confirmPassword = Some (lit ''Passw0rd!''), fullName = Some (lit ''Al''), phone = Some []\<rparr>"

text \<open>
  A registration form filled in while no availability verdict is stored, as after typing
  the email in login mode and pressing the Register tab.
\<close>

definition unchecked_registration :: state where
  "unchecked_registration = initial_state\<lparr>isLogin := False, formData := filled_form\<rparr>"

text \<open>The same form once the availability check has answered that the email is free.\<close>

definition checked_registration :: state where
  "checked_registration =
     unchecked_registration
       \<lparr>emailValidation := \<lparr>isChecking = False, isValid = Some True,
                             message = lit ''Email is available''\<rparr>\<rparr>"

text \<open>The same form while the availability check is still running.\<close>

definition checking_registration :: state where
  "checking_registration =
     unchecked_registration
       \<lparr>emailValidation := \<lparr>isChecking = True, isValid = None,
                             message = lit ''Checking availability...''\<rparr>\<rparr>"

text \<open>A registration form edited by the user, with a field marked as touched.\<close>

definition edited_registration :: state where
  "edited_registration = checked_registration\<lparr>touchedFields := [Email \<mapsto> True]\<rparr>"

definition login_form :: state where
  "login_form =
     initial_state\<lparr>formData := \<lparr>email = lit ''a@b.co'', password = lit ''x'',
                                  confirmPassword = Some [], fullName = Some [], phone = Some []\<rparr>\<rparr>"

definition no_errors :: env where
  "no_errors =
     \<lparr>signInError = None, didRequestResend = False, resendError = None, signUpError = None\<rparr>"

definition one_row :: "jsstring \<Rightarrow> jsstring \<Rightarrow> (unit, unit) query_response" where
  "one_row column v = \<lparr>data = Some [()], error = None\<rparr>"

definition no_row :: "jsstring \<Rightarrow> jsstring \<Rightarrow> (unit, unit) query_response" where
  "no_row column v = \<lparr>data = Some [], error = None\<rparr>"

definition failing :: "jsstring \<Rightarrow> jsstring \<Rightarrow> (unit, unit) query_response" where
  "failing column v = \<lparr>data = None, error = Some ()\<rparr>"

text \<open>
  A registration session in which the email is typed in two steps and the check of the
  first text settles, with the answer that it is free, while the check of the second is
  still in flight.
\<close>

definition overlapping_checks :: session where
  "overlapping_checks =
     session_run id no_row
       [Input Email (lit ''a@b.c''), Input Email (lit ''a@b.co''), Settles 0]
       \<lparr>current = initial_state\<lparr>isLogin := False, formData := filled_form\<lparr>email := []\<rparr>\<rparr>,
        in_flight = []\<rparr>"

section \<open>The derivative matcher computes the language\<close>

lemma nullable_lang: "nullable r \<longleftrightarrow> [] \<in> lang r"
  by (induction r) (auto simp: lang_conc_def intro: star_empty)

lemma conc_cons_iff:
  "c # w \<in> lang_conc A B \<longleftrightarrow>
     ([] \<in> A \<and> c # w \<in> B) \<or> (\<exists>u v. w = u @ v \<and> c # u \<in> A \<and> v \<in> B)"
  unfolding lang_conc_def
  by (auto simp: Cons_eq_append_conv append_eq_Cons_conv) 

lemma star_cons_split:
  assumes "x \<in> lang_star A" and "x = c # w"
  shows "\<exists>u v. w = u @ v \<and> c # u \<in> A \<and> v \<in> lang_star A"
  using assms
proof (induction arbitrary: w rule: lang_star.induct)
  case star_empty
  then show ?case by simp
next
  case (star_step u v)
  show ?case
  proof (cases u)
    case Nil
    with star_step show ?thesis by simp
  next
    case (Cons a u')
    with star_step.prems have "a = c" and "w = u' @ v" by simp_all
    with Cons star_step.hyps show ?thesis by blast
  qed
qed

lemma star_cons_iff:
  "c # w \<in> lang_star A \<longleftrightarrow> (\<exists>u v. w = u @ v \<and> c # u \<in> A \<and> v \<in> lang_star A)"
proof
  assume "c # w \<in> lang_star A"
  then show "\<exists>u v. w = u @ v \<and> c # u \<in> A \<and> v \<in> lang_star A"
    by (rule star_cons_split) simp
next
  assume "\<exists>u v. w = u @ v \<and> c # u \<in> A \<and> v \<in> lang_star A"
  then obtain u v where "w = u @ v" "c # u \<in> A" "v \<in> lang_star A" by blast
  then have "(c # u) @ v \<in> lang_star A" by (intro star_step)
  with \<open>w = u @ v\<close> show "c # w \<in> lang_star A" by simp
qed

lemma deriv_lang: "w \<in> lang (deriv c r) \<longleftrightarrow> c # w \<in> lang r"
proof (induction r arbitrary: w)
  case (Seq r s)
  then show ?case
    by (auto simp: conc_cons_iff nullable_lang) (auto simp: lang_conc_def)
next
  case (Star r)
  then show ?case
    by (auto simp: star_cons_iff lang_conc_def)
qed auto

lemma matches_lang: "matches r s \<longleftrightarrow> s \<in> lang r"
  by (induction s arbitrary: r) (simp_all add: nullable_lang deriv_lang)

lemma star_cls_iff: "w \<in> lang_star {[c] | c. p c} \<longleftrightarrow> list_all p w"
  by (induction w) (auto simp: star_cons_iff intro: star_empty)

lemma conc_iff: "w \<in> lang_conc A B \<longleftrightarrow> (\<exists>u v. w = u @ v \<and> u \<in> A \<and> v \<in> B)"
  by (auto simp: lang_conc_def)

lemma cls_conc_iff: "w \<in> lang_conc (lang (Cls p)) B \<longleftrightarrow> (\<exists>c v. w = c # v \<and> p c \<and> v \<in> B)"
proof
  assume "w \<in> lang_conc (lang (Cls p)) B"
  then show "\<exists>c v. w = c # v \<and> p c \<and> v \<in> B"
    by (auto simp: lang_conc_def)
next
  assume "\<exists>c v. w = c # v \<and> p c \<and> v \<in> B"
  then obtain c v where "w = [c] @ v" "p c" "v \<in> B" by auto
  then show "w \<in> lang_conc (lang (Cls p)) B"
    unfolding conc_iff by (intro exI [of _ "[c]"] exI [of _ v]) simp
qed

lemma plus_cls_iff: "w \<in> lang (Plus (Cls p)) \<longleftrightarrow> w \<noteq> [] \<and> list_all p w"
  unfolding Plus_def lang.simps(4) cls_conc_iff
  by (cases w) (auto simp: star_cls_iff)

lemma plus_conc_iff:
  "w \<in> lang_conc (lang (Plus (Cls p))) B \<longleftrightarrow>
     (\<exists>l v. w = l @ v \<and> l \<noteq> [] \<and> list_all p l \<and> v \<in> B)"
  by (auto simp: conc_iff plus_cls_iff)

lemma validateEmail_iff_shape: "validateEmail s \<longleftrightarrow> email_shape s"
proof -
  have "validateEmail s \<longleftrightarrow>
          (\<exists>l v. s = l @ v \<and> l \<noteq> [] \<and> list_all not_space_at l \<and>
             (\<exists>c v'. v = c # v' \<and> c = at_sign \<and>
                (\<exists>d v''. v' = d @ v'' \<and> d \<noteq> [] \<and> list_all not_space_at d \<and>
                   (\<exists>c' t. v'' = c' # t \<and> c' = dot_sign \<and> t \<noteq> [] \<and> list_all not_space_at t))))"
    unfolding validateEmail_def matches_lang emailRegex_def
    by (simp only: lang.simps(4) cls_conc_iff plus_conc_iff plus_cls_iff)
  also have "\<dots> \<longleftrightarrow> email_shape s"
    unfolding email_shape_def by blast
  finally show ?thesis .
qed

lemma not_space_at_dot: "not_space_at dot_sign"
  by (simp add: not_space_at_def is_space_def dot_sign_def at_sign_def)

lemma email_shape_unique_at:
  assumes "email_shape s"
  shows "\<exists>p q. s = p @ at_sign # q \<and> at_sign \<notin> set p \<and> at_sign \<notin> set q \<and> dot_sign \<in> set q"
proof -
  from assms obtain l d t where s: "s = l @ at_sign # d @ dot_sign # t"
    and cls: "list_all not_space_at l" "list_all not_space_at d" "list_all not_space_at t"
    unfolding email_shape_def by blast
  from cls have "at_sign \<notin> set l" "at_sign \<notin> set (d @ dot_sign # t)"
    using not_space_at_dot by (auto simp: list_all_iff not_space_at_def)
  with s show ?thesis by (intro exI [of _ l] exI [of _ "d @ dot_sign # t"]) simp
qed

lemma exactly_cls_iff:
  "w \<in> lang (exactly_times (Cls p) n) \<longleftrightarrow> length w = n \<and> list_all p w"
proof (induction n arbitrary: w)
  case 0
  show ?case by auto
next
  case (Suc n)
  show ?case
    unfolding exactly_times.simps lang.simps(4) cls_conc_iff Suc.IH
    by (cases w) auto
qed

lemma upto_cls_iff:
  "w \<in> lang (upto_times (Cls p) n) \<longleftrightarrow> length w \<le> n \<and> list_all p w"
proof (induction n arbitrary: w)
  case 0
  show ?case by auto
next
  case (Suc n)
  have "w \<in> lang (upto_times (Cls p) (Suc n)) \<longleftrightarrow>
          w = [] \<or> (\<exists>c v. w = c # v \<and> p c \<and> length v \<le> n \<and> list_all p v)"
    unfolding upto_times.simps Opt_def lang.simps(2,4,5) Un_iff cls_conc_iff Suc.IH by auto
  also have "\<dots> \<longleftrightarrow> length w \<le> Suc n \<and> list_all p w"
    by (cases w) auto
  finally show ?case .
qed

lemma rep_cls_iff:
  assumes "m \<le> n"
  shows "w \<in> lang (Rep (Cls p) m n) \<longleftrightarrow> m \<le> length w \<and> length w \<le> n \<and> list_all p w"
proof
  assume "w \<in> lang (Rep (Cls p) m n)"
  then obtain u v where "w = u @ v" "length u = m" "list_all p u" "length v \<le> n - m" "list_all p v"
    unfolding Rep_def lang.simps(4) conc_iff exactly_cls_iff upto_cls_iff by blast
  with assms show "m \<le> length w \<and> length w \<le> n \<and> list_all p w" by auto
next
  assume a: "m \<le> length w \<and> length w \<le> n \<and> list_all p w"
  then have "w = take m w @ drop m w" "length (take m w) = m" "length (drop m w) \<le> n - m"
    "list_all p (take m w)" "list_all p (drop m w)"
    by (auto simp: list_all_iff dest: in_set_takeD in_set_dropD)
  then show "w \<in> lang (Rep (Cls p) m n)"
    unfolding Rep_def lang.simps(4) conc_iff exactly_cls_iff upto_cls_iff by blast
qed

lemma nonzero_digit_iff: "is_nonzero_digit c \<longleftrightarrow> is_digit c \<and> c \<noteq> 0x30"
  unfolding is_nonzero_digit_def is_digit_def by unat_arith

lemma digit_not_plus: "is_digit c \<Longrightarrow> c \<noteq> plus_sign"
  unfolding is_digit_def plus_sign_def by unat_arith

lemma conc_un_eps: "w \<in> lang_conc (A \<union> {[]}) B \<longleftrightarrow> w \<in> lang_conc A B \<or> w \<in> B"
  by (auto simp: lang_conc_def)

lemma opt_conc_iff:
  "w \<in> lang_conc (lang (Opt (Cls (\<lambda>c. c = a)))) B \<longleftrightarrow> w \<in> B \<or> (\<exists>v. w = a # v \<and> v \<in> B)"
  unfolding Opt_def lang.simps(2,5) conc_un_eps cls_conc_iff by auto

lemma phone_lang_iff:
  "t \<in> lang phoneRegex \<longleftrightarrow>
     (\<exists>c v. (t = c # v \<or> t = plus_sign # c # v) \<and> is_nonzero_digit c \<and>
        1 \<le> length v \<and> length v \<le> 14 \<and> list_all is_digit v)"
proof -
  have body: "w \<in> lang (Seq (Cls is_nonzero_digit) (Rep (Cls is_digit) 1 14)) \<longleftrightarrow>
      (\<exists>c v. w = c # v \<and> is_nonzero_digit c \<and> 1 \<le> length v \<and> length v \<le> 14 \<and>
         list_all is_digit v)" for w
    unfolding lang.simps(4) cls_conc_iff by (simp add: rep_cls_iff)
  have "t \<in> lang phoneRegex \<longleftrightarrow>
          t \<in> lang (Seq (Cls is_nonzero_digit) (Rep (Cls is_digit) 1 14)) \<or>
          (\<exists>w. t = plus_sign # w \<and> w \<in> lang (Seq (Cls is_nonzero_digit) (Rep (Cls is_digit) 1 14)))"
    unfolding phoneRegex_def lang.simps(4) [of "Opt (Cls (\<lambda>c. c = plus_sign))"] opt_conc_iff ..
  also have "\<dots> \<longleftrightarrow>
     (\<exists>c v. (t = c # v \<or> t = plus_sign # c # v) \<and> is_nonzero_digit c \<and>
        1 \<le> length v \<and> length v \<le> 14 \<and> list_all is_digit v)"
    unfolding body by blast
  finally show ?thesis .
qed

lemma phone_shape_iff:
  "phone_shape t \<longleftrightarrow>
     (\<exists>c v. (t = c # v \<or> t = plus_sign # c # v) \<and> is_nonzero_digit c \<and>
        1 \<le> length v \<and> length v \<le> 14 \<and> list_all is_digit v)"
proof
  assume "phone_shape t"
  then have len: "2 \<le> length (phone_digits t)" "length (phone_digits t) \<le> 15"
    and dig: "list_all is_digit (phone_digits t)" and nz: "hd (phone_digits t) \<noteq> 0x30"
    unfolding phone_shape_def by (simp_all add: Let_def)
  from len obtain c v where cv: "phone_digits t = c # v" by (cases "phone_digits t") auto
  have "t = c # v \<or> t = plus_sign # c # v"
    using cv unfolding phone_digits_def by (auto split: list.splits if_splits)
  moreover have "is_nonzero_digit c" using dig nz cv by (simp add: nonzero_digit_iff)
  moreover have "1 \<le> length v" "length v \<le> 14" "list_all is_digit v"
    using len dig cv by auto
  ultimately show "\<exists>c v. (t = c # v \<or> t = plus_sign # c # v) \<and> is_nonzero_digit c \<and>
        1 \<le> length v \<and> length v \<le> 14 \<and> list_all is_digit v" by blast
next
  assume "\<exists>c v. (t = c # v \<or> t = plus_sign # c # v) \<and> is_nonzero_digit c \<and>
        1 \<le> length v \<and> length v \<le> 14 \<and> list_all is_digit v"
  then obtain c v where t: "t = c # v \<or> t = plus_sign # c # v" and c: "is_nonzero_digit c"
    and v: "1 \<le> length v" "length v \<le> 14" "list_all is_digit v" by blast
  from c have "c \<noteq> plus_sign" by (simp add: nonzero_digit_iff digit_not_plus)
  with t have "phone_digits t = c # v" unfolding phone_digits_def by auto
  with c v show "phone_shape t"
    unfolding phone_shape_def by (simp add: Let_def nonzero_digit_iff)
qed

lemma validatePhone_iff_shape: "validatePhone s \<longleftrightarrow> phone_shape (filter (\<lambda>c. \<not> is_space c) s)"
  unfolding validatePhone_def strip_space_def matches_lang phone_lang_iff phone_shape_iff ..

section \<open>Validators and password strength\<close>

lemma score_le_5: "score (calculatePasswordStrength pw) \<le> 5"
  by (simp add: calculatePasswordStrength_def Let_def object_values_def)

lemma criteria_univ: "(UNIV :: criterion set) = set [MinLength, HasUppercase, HasLowercase, HasDigit, HasSpecial]"
proof -
  have "c \<in> set [MinLength, HasUppercase, HasLowercase, HasDigit, HasSpecial]" for c
    by (cases c) simp_all
  then show ?thesis by blast
qed

lemma criteria_count_filter:
  "criteria_count pw =
     length (filter (satisfies pw) [MinLength, HasUppercase, HasLowercase, HasDigit, HasSpecial])"
proof -
  let ?all = "[MinLength, HasUppercase, HasLowercase, HasDigit, HasSpecial]"
  have "set (filter (satisfies pw) ?all) = {c \<in> UNIV. satisfies pw c}"
    by (simp only: set_filter criteria_univ)
  then have "{c. satisfies pw c} = set (filter (satisfies pw) ?all)"
    by simp
  moreover have "distinct ?all" by simp
  then have "distinct (filter (satisfies pw) ?all)"
    by (rule distinct_filter)
  ultimately show ?thesis
    unfolding criteria_count_def by (simp only: distinct_card)
qed

lemma score_eq_count: "score (calculatePasswordStrength pw) = criteria_count pw"
  unfolding criteria_count_filter
  by (simp add: calculatePasswordStrength_def Let_def object_values_def password_checks_def
      test_class_def)

lemma label_by_table:
  assumes "n \<le> 5"
  shows "label_table n = Some (arm_label (switch_on_score n))"
proof -
  from assms have "n = 0 \<or> n = 1 \<or> n = 2 \<or> n = 3 \<or> n = 4 \<or> n = 5" by arith
  then show ?thesis
    by (elim disjE) (simp_all add: label_table_def switch_on_score_def)
qed

lemma label_eq_arm: "label (calculatePasswordStrength pw) = arm_label (switch_on_score (score (calculatePasswordStrength pw)))"
  by (simp add: calculatePasswordStrength_def Let_def)

text \<open>
  Claim C1. For every password, the score of the strength scorer is the number of the
  five criteria (length at least 8, an uppercase letter, a lowercase letter, a digit,
  a special character) that the password satisfies, and its label is the entry of the
  fixed table at that score: 0 and 1 give Very Weak, 2 Weak, 3 Fair, 4 Good, 5 Strong.
\<close>

theorem calculatePasswordStrength_score_label:
  "score (calculatePasswordStrength pw) = criteria_count pw \<and>
   label_table (score (calculatePasswordStrength pw)) = Some (label (calculatePasswordStrength pw))"
  using score_eq_count [of pw] label_by_table [OF score_le_5, of pw] label_eq_arm [of pw]
  by simp

lemma switch_not_default: "n \<le> 5 \<Longrightarrow> switch_on_score n \<noteq> Default"
  by (simp add: switch_on_score_def)

lemma arm_label_range:
  "arm_label a \<in> {lit ''Very Weak'', lit ''Weak'', lit ''Fair'', lit ''Good'', lit ''Strong''}"
  by (cases a) simp_all

text \<open>
  Claim C10. The scorer is defined on every string, the empty one included: the score
  is between 0 and 5, the label is one of the five labels, and the \<open>switch\<close> on the
  score never takes its default arm.
\<close>

theorem calculatePasswordStrength_total:
  "score (calculatePasswordStrength pw) \<le> 5 \<and>
   label (calculatePasswordStrength pw) \<in>
     {lit ''Very Weak'', lit ''Weak'', lit ''Fair'', lit ''Good'', lit ''Strong''} \<and>
   switch_on_score (score (calculatePasswordStrength pw)) \<noteq> Default"
  using score_le_5 [of pw] arm_label_range label_eq_arm [of pw] switch_not_default [OF score_le_5, of pw]
  by simp

lemma dot_after_at_dot: "dot_after_at s \<Longrightarrow> dot_sign \<in> set s"
  unfolding dot_after_at_def by auto

text \<open>
  Claim C2. The email validator accepts every string of the shape of the pattern; it
  rejects every string without an \<open>@\<close>, every string without a dot after the \<open>@\<close>,
  and the empty string.
\<close>

theorem validateEmail_spec:
  "(email_shape s \<longrightarrow> validateEmail s) \<and>
   (at_sign \<notin> set s \<longrightarrow> \<not> validateEmail s) \<and>
   (\<not> dot_after_at s \<longrightarrow> \<not> validateEmail s) \<and>
   \<not> validateEmail []"
proof (intro conjI impI)
  assume "email_shape s"
  then show "validateEmail s" by (simp add: validateEmail_iff_shape)
next
  assume "at_sign \<notin> set s"
  then show "\<not> validateEmail s"
    using email_shape_unique_at [of s] by (auto simp: validateEmail_iff_shape)
next
  assume "\<not> dot_after_at s"
  then show "\<not> validateEmail s"
    using email_shape_unique_at [of s] unfolding dot_after_at_def validateEmail_iff_shape by blast
next
  show "\<not> validateEmail []"
    by (simp add: validateEmail_iff_shape email_shape_def)
qed

theorem validateEmail_spec_witness:
  "email_shape (lit ''a@b.co'') \<and> validateEmail (lit ''a@b.co'') \<and>
   at_sign \<notin> set (lit ''ab.co'') \<and> \<not> validateEmail (lit ''ab.co'') \<and>
   \<not> dot_after_at (lit ''a@bco'') \<and> \<not> validateEmail (lit ''a@bco'')"
proof -
  have shape: "email_shape (lit ''a@b.co'')"
    unfolding email_shape_def
    by (intro exI [of _ "lit ''a''"] exI [of _ "lit ''b''"] exI [of _ "lit ''co''"])
      (simp add: lit_def at_sign_def dot_sign_def not_space_at_def is_space_def)
  have no_at: "at_sign \<notin> set (lit ''ab.co'')"
    by (simp add: lit_def at_sign_def)
  have "dot_sign \<notin> set (lit ''a@bco'')"
    by (simp add: lit_def dot_sign_def)
  then have no_dot: "\<not> dot_after_at (lit ''a@bco'')"
    using dot_after_at_dot by blast
  show ?thesis
    using shape no_at no_dot validateEmail_spec [of "lit ''a@b.co''"]
      validateEmail_spec [of "lit ''ab.co''"] validateEmail_spec [of "lit ''a@bco''"]
    by blast
qed

text \<open>
  Claim C3. The phone validator removes every white-space code unit from its input and
  accepts exactly when what is left is an optional \<open>+\<close> followed by 2 to 15 digits, the
  first of which is not \<open>0\<close>.
\<close>

theorem validatePhone_spec:
  "validatePhone s = phone_shape (filter (\<lambda>c. \<not> is_space c) s)"
  by (rule validatePhone_iff_shape)

section \<open>The availability check\<close>

lemmas char_class_defs =
  lit_def at_sign_def dot_sign_def plus_sign_def not_space_at_def is_space_def is_digit_def
  is_upper_def is_lower_def is_special_def is_nonzero_digit_def

lemma lit_nonempty: "lit (c # cs) \<noteq> []"
  by (simp add: lit_def)

lemma length_lit: "length (lit s) = length s"
  by (simp add: lit_def)

lemma taken_valid: "validateEmail (lit ''taken@example.com'')"
  by (simp add: validateEmail_def emailRegex_def Plus_def char_class_defs)

lemma nope_invalid: "\<not> validateEmail (lit ''nope'')"
  by (simp add: validateEmail_def emailRegex_def Plus_def char_class_defs)

text \<open>
  Claim C4. The email availability check has no raising branch: on every input and every
  response of the data service it returns a result. An email that fails the format check
  gives a negative result with no request issued; otherwise the first request selects the
  profiles whose email is the lowercased input, and the result is negative with the
  message that the email is already registered when a row comes back, negative with the
  generic error message when the response carries an error, and positive otherwise.
\<close>

theorem checkEmailAvailability_cases:
  fixes select_eq :: "jsstring \<Rightarrow> jsstring \<Rightarrow> ('row, 'err) query_response"
  shows
  "(\<not> validateEmail em \<longrightarrow>
      checkEmailAvailability lower select_eq em =
        ([], \<lparr>availability.isValid = False,
              availability.message = lit ''Please enter a valid email format''\<rparr>)) \<and>
   (validateEmail em \<longrightarrow>
      hd (fst (checkEmailAvailability lower select_eq em)) =
        SelectProfiles (lit ''email'') (lower em)) \<and>
   (validateEmail em \<and> error (select_eq (lit ''email'') (lower em)) = None \<and>
    data (select_eq (lit ''email'') (lower em)) = Some rows \<and> rows \<noteq> [] \<longrightarrow>
      snd (checkEmailAvailability lower select_eq em) =
        \<lparr>availability.isValid = False,
         availability.message = lit ''This email is already registered''\<rparr>) \<and>
   (validateEmail em \<and> error (select_eq (lit ''email'') (lower em)) \<noteq> None \<longrightarrow>
      snd (checkEmailAvailability lower select_eq em) =
        \<lparr>availability.isValid = False,
         availability.message = lit ''Error checking email. Please try again.''\<rparr>) \<and>
   (validateEmail em \<and> error (select_eq (lit ''email'') (lower em)) = None \<and>
    (data (select_eq (lit ''email'') (lower em)) = None \<or>
     data (select_eq (lit ''email'') (lower em)) = Some []) \<longrightarrow>
      availability.isValid (snd (checkEmailAvailability lower select_eq em)))"
  by (cases rows) (auto simp: checkEmailAvailability_def Let_def split: option.splits list.splits)

theorem checkEmailAvailability_cases_witness:
  "checkEmailAvailability id one_row (lit ''nope'') =
     ([], \<lparr>availability.isValid = False,
           availability.message = lit ''Please enter a valid email format''\<rparr>) \<and>
   hd (fst (checkEmailAvailability id one_row (lit ''taken@example.com''))) =
     SelectProfiles (lit ''email'') (lit ''taken@example.com'') \<and>
   snd (checkEmailAvailability id one_row (lit ''taken@example.com'')) =
     \<lparr>availability.isValid = False,
      availability.message = lit ''This email is already registered''\<rparr> \<and>
   snd (checkEmailAvailability id failing (lit ''taken@example.com'')) =
     \<lparr>availability.isValid = False,
      availability.message = lit ''Error checking email. Please try again.''\<rparr> \<and>
   availability.isValid (snd (checkEmailAvailability id no_row (lit ''taken@example.com'')))"
  using taken_valid nope_invalid
    checkEmailAvailability_cases [of "lit ''nope''" id one_row "[()]"]
    checkEmailAvailability_cases [of "lit ''taken@example.com''" id one_row "[()]"]
    checkEmailAvailability_cases [of "lit ''taken@example.com''" id failing "[()]"]
    checkEmailAvailability_cases [of "lit ''taken@example.com''" id no_row "[()]"]
  by (simp add: one_row_def failing_def no_row_def)

section \<open>Validation of the form\<close>

lemma in_progress_email:
  "isChecking (emailValidation s) \<Longrightarrow>
     in_progress_errors s e Email = Some (lit ''Please wait while we check email availability'')"
  by (simp add: in_progress_errors_def Let_def)

lemma in_progress_email_idle:
  "\<not> isChecking (emailValidation s) \<Longrightarrow> in_progress_errors s e Email = e Email"
  by (simp add: in_progress_errors_def Let_def)

lemma password_keeps_email: "password_errors s e Email = e Email"
  by (simp add: password_errors_def)

lemma fullName_keeps_others: "f \<noteq> FullName \<Longrightarrow> fullName_errors s e f = e f"
  by (simp add: fullName_errors_def split: option.splits)

lemma confirmPassword_keeps_others:
  "f \<noteq> ConfirmPassword \<Longrightarrow> confirmPassword_errors s e f = e f"
  by (simp add: confirmPassword_errors_def)

lemma phone_keeps_others: "f \<noteq> Phone \<Longrightarrow> phone_errors s e f = e f"
  by (simp add: phone_errors_def split: option.splits)

lemma in_progress_keeps_password: "in_progress_errors s e Password = e Password"
  by (simp add: in_progress_errors_def Let_def)

lemma email_errors_email:
  "email_errors s Map.empty Email = None \<longleftrightarrow>
     email (formData s) \<noteq> [] \<and> validateEmail (email (formData s)) \<and>
     \<not> (\<not> isLogin s \<and> isValid (emailValidation s) = Some False)"
  by (simp add: email_errors_def)

lemma email_errors_password: "email_errors s e Password = e Password"
  by (simp add: email_errors_def)

lemma password_errors_password:
  "password_errors s e Password = None \<longleftrightarrow>
     e Password = None \<and> password (formData s) \<noteq> [] \<and>
     \<not> (\<not> isLogin s \<and> \<not> validatePassword (password (formData s)))"
  by (simp add: password_errors_def)

lemma newErrors_email_register:
  assumes "\<not> isLogin s"
  shows "newErrors s Email = None \<longleftrightarrow>
           email (formData s) \<noteq> [] \<and> validateEmail (email (formData s)) \<and>
           isValid (emailValidation s) \<noteq> Some False \<and> \<not> isChecking (emailValidation s)"
proof (cases "isChecking (emailValidation s)")
  case True
  with assms show ?thesis by (simp add: newErrors_def Let_def in_progress_email)
next
  case False
  with assms have "newErrors s Email = email_errors s Map.empty Email"
    by (simp add: newErrors_def Let_def in_progress_email_idle phone_keeps_others
        confirmPassword_keeps_others fullName_keeps_others password_keeps_email)
  with assms False show ?thesis by (simp add: email_errors_email)
qed

lemma newErrors_login:
  assumes "isLogin s"
  shows "newErrors s = password_errors s (email_errors s Map.empty)"
  using assms by (simp add: newErrors_def Let_def)

lemma newErrors_password:
  "newErrors s Password = None \<longleftrightarrow>
     password (formData s) \<noteq> [] \<and> (isLogin s \<or> validatePassword (password (formData s)))"
proof -
  have "newErrors s Password = password_errors s (email_errors s Map.empty) Password"
    by (simp add: newErrors_def Let_def in_progress_keeps_password phone_keeps_others
        confirmPassword_keeps_others fullName_keeps_others)
  then show ?thesis
    by (auto simp: password_errors_password email_errors_password)
qed

lemma object_keys_empty_iff: "length (object_keys m) = 0 \<longleftrightarrow> (\<forall>f. m f = None)"
proof -
  have "(\<forall>f. m f = None) \<longleftrightarrow>
          (\<forall>f \<in> set [Email, Password, ConfirmPassword, FullName, Phone]. m f = None)"
  proof -
    have "f \<in> set [Email, Password, ConfirmPassword, FullName, Phone]" for f :: field
      by (cases f) simp_all
    then show ?thesis by blast
  qed
  then show ?thesis
    unfolding object_keys_def by (simp add: filter_empty_conv)
qed

lemma validateForm_passes_iff: "snd (validateForm s) \<longleftrightarrow> newErrors s = Map.empty"
  unfolding validateForm_def snd_conv object_keys_empty_iff by auto

lemma newErrors_email_checking:
  assumes "\<not> isLogin s" and "isChecking (emailValidation s)"
  shows "newErrors s Email = Some (lit ''Please wait while we check email availability'')"
  using assms by (simp add: newErrors_def Let_def in_progress_email)

subsection \<open>Sample inputs evaluated\<close>

lemma sample_email_valid: "validateEmail (lit ''a@b.co'')"
  by (simp add: validateEmail_def emailRegex_def Plus_def char_class_defs)

lemma sample_password_valid: "validatePassword (lit ''Passw0rd!'')"
  by (simp add: validatePassword_def calculatePasswordStrength_def password_checks_def
      test_class_def Let_def char_class_defs)

lemma newErrors_unchecked: "newErrors unchecked_registration = Map.empty"
  using sample_email_valid sample_password_valid
  by (simp add: unchecked_registration_def initial_state_def filled_form_def newErrors_def
      email_errors_def password_errors_def fullName_errors_def confirmPassword_errors_def
      phone_errors_def in_progress_errors_def truthy_def Let_def lit_nonempty length_lit)

lemma newErrors_checked: "newErrors checked_registration = Map.empty"
  using sample_email_valid sample_password_valid
  by (simp add: checked_registration_def unchecked_registration_def initial_state_def
      filled_form_def newErrors_def
      email_errors_def password_errors_def fullName_errors_def confirmPassword_errors_def
      phone_errors_def in_progress_errors_def truthy_def Let_def lit_nonempty length_lit)

lemma newErrors_login_form: "newErrors login_form = Map.empty"
  using sample_email_valid
  by (simp add: login_form_def initial_state_def newErrors_def email_errors_def
      password_errors_def Let_def lit_nonempty)

section \<open>Submission\<close>

lemma handleSubmit_rejected:
  "\<not> snd (validateForm s) \<Longrightarrow>
     handleSubmit ev s = ([SwalFire validationErrorDialog], fst (validateForm s))"
  by (simp add: handleSubmit_def validateForm_def)

lemma handleSubmit_accepted:
  assumes "snd (validateForm s)"
  shows "fst (handleSubmit ev s) =
           (if isLogin s then fst (login_flow ev ((fst (validateForm s))\<lparr>isLoading := True\<rparr>))
            else fst (register_flow ev ((fst (validateForm s))\<lparr>isLoading := True\<rparr>)))"
  using assms by (simp add: handleSubmit_def validateForm_def split: prod.splits)

lemma login_flow_no_signup: "\<not> list_ex is_SignUp (fst (login_flow ev s))"
  by (simp add: login_flow_def Let_def split: option.splits)

lemma register_flow_signup: "list_ex is_SignUp (fst (register_flow ev s))"
  by (simp add: register_flow_def Let_def split: option.splits)

lemma signup_needs_valid_register:
  assumes "list_ex is_SignUp (fst (handleSubmit ev s))"
  shows "\<not> isLogin s \<and> snd (validateForm s)"
proof (cases "snd (validateForm s)")
  case False
  then have "fst (handleSubmit ev s) = [SwalFire validationErrorDialog]"
    by (simp add: handleSubmit_rejected)
  with assms show ?thesis by simp
next
  case True
  show ?thesis
  proof (cases "isLogin s")
    case login: True
    with True have "fst (handleSubmit ev s) =
        fst (login_flow ev ((fst (validateForm s))\<lparr>isLoading := True\<rparr>))"
      by (simp add: handleSubmit_accepted)
    with assms login_flow_no_signup show ?thesis by simp
  next
    case False
    with True show ?thesis by simp
  qed
qed

lemma accepted_registration_signs_up:
  assumes "\<not> isLogin s" and "newErrors s = Map.empty"
  shows "list_ex is_SignUp (fst (handleSubmit ev s))"
proof -
  from assms(2) have "snd (validateForm s)" by (simp add: validateForm_passes_iff)
  with assms(1) show ?thesis
    by (simp add: handleSubmit_accepted register_flow_signup)
qed

text \<open>
  Claim C5. In registration mode, while the email availability check is still running,
  a submission puts the error asking the user to wait on the email field, the validation
  of the form returns false, and no sign-up call is made.
\<close>

theorem submit_while_checking:
  assumes "\<not> isLogin s" and "isChecking (emailValidation s)"
  shows "errors (fst (validateForm s)) Email =
           Some (lit ''Please wait while we check email availability'') \<and>
         \<not> snd (validateForm s) \<and>
         fst (handleSubmit ev s) = [SwalFire validationErrorDialog] \<and>
         errors (snd (handleSubmit ev s)) Email =
           Some (lit ''Please wait while we check email availability'') \<and>
         \<not> list_ex is_SignUp (fst (handleSubmit ev s))"
proof -
  have e: "newErrors s Email = Some (lit ''Please wait while we check email availability'')"
    using assms by (rule newErrors_email_checking)
  then have "newErrors s \<noteq> Map.empty" by auto
  then have blocked: "\<not> snd (validateForm s)" by (simp add: validateForm_passes_iff)
  from e have "errors (fst (validateForm s)) Email =
      Some (lit ''Please wait while we check email availability'')"
    by (simp add: validateForm_def)
  with blocked show ?thesis by (simp add: handleSubmit_rejected)
qed

theorem submit_while_checking_witness:
  "\<not> isLogin checking_registration \<and> isChecking (emailValidation checking_registration) \<and>
   errors (fst (validateForm checking_registration)) Email =
     Some (lit ''Please wait while we check email availability'') \<and>
   \<not> snd (validateForm checking_registration) \<and>
   fst (handleSubmit no_errors checking_registration) = [SwalFire validationErrorDialog] \<and>
   errors (snd (handleSubmit no_errors checking_registration)) Email =
     Some (lit ''Please wait while we check email availability'') \<and>
   \<not> list_ex is_SignUp (fst (handleSubmit no_errors checking_registration))"
proof -
  have reg: "\<not> isLogin checking_registration"
    and chk: "isChecking (emailValidation checking_registration)"
    by (simp_all add: checking_registration_def unchecked_registration_def)
  from reg chk submit_while_checking [OF reg chk, of no_errors] show ?thesis by blast
qed

lemma first_text_valid: "validateEmail (lit ''a@b.c'')"
  by (simp add: validateEmail_def emailRegex_def Plus_def char_class_defs)

lemma first_check_free:
  "snd (checkEmailAvailability id no_row (lit ''a@b.c'')) =
     \<lparr>availability.isValid = True, availability.message = lit ''Email is available''\<rparr>"
  using first_text_valid by (simp add: checkEmailAvailability_def no_row_def Let_def)

lemma overlapping_checks_eq:
  "overlapping_checks = \<lparr>current = edited_registration, in_flight = [(Email, lit ''a@b.co'')]\<rparr>"
  unfolding overlapping_checks_def
  by (simp add: session_step_def handleInputChange_begin_def handleInputChange_resume_def
      set_field_def truthy_def Let_def first_check_free lit_nonempty initial_state_def
      edited_registration_def checked_registration_def unchecked_registration_def
      filled_form_def)

lemma newErrors_edited: "newErrors edited_registration = Map.empty"
  using sample_email_valid sample_password_valid
  by (simp add: edited_registration_def checked_registration_def unchecked_registration_def
      initial_state_def filled_form_def newErrors_def
      email_errors_def password_errors_def fullName_errors_def confirmPassword_errors_def
      phone_errors_def in_progress_errors_def truthy_def Let_def lit_nonempty length_lit)

text \<open>
  Claim C6, as stated, fails on both of its conditions. A registration form for which no
  availability verdict is stored, and whose stored \<open>isChecking\<close> flag is clear, passes
  validation on the email field, and its submission reaches the sign-up call. And when
  the email is typed in two steps and the check of the first text settles with the answer
  that it is free, the form passes validation and its submission reaches the sign-up
  call while the check of the submitted email is still in flight.
\<close>

theorem unchecked_email_reaches_signup:
  "\<not> isLogin unchecked_registration \<and>
   errors (fst (validateForm unchecked_registration)) Email = None \<and>
   snd (validateForm unchecked_registration) \<and>
   \<not> isChecking (emailValidation unchecked_registration) \<and>
   isValid (emailValidation unchecked_registration) \<noteq> Some True \<and>
   list_ex is_SignUp (fst (handleSubmit no_errors unchecked_registration)) \<and>
   in_flight overlapping_checks = [(Email, lit ''a@b.co'')] \<and>
   email (formData (current overlapping_checks)) = lit ''a@b.co'' \<and>
   \<not> isLogin (current overlapping_checks) \<and>
   errors (fst (validateForm (current overlapping_checks))) Email = None \<and>
   snd (validateForm (current overlapping_checks)) \<and>
   list_ex is_SignUp (fst (handleSubmit no_errors (current overlapping_checks)))"
proof -
  have reg: "\<not> isLogin unchecked_registration"
    and idle: "\<not> isChecking (emailValidation unchecked_registration)"
    and unknown: "isValid (emailValidation unchecked_registration) = None"
    by (simp_all add: unchecked_registration_def initial_state_def)
  have "errors (fst (validateForm unchecked_registration)) Email = None"
    by (simp add: validateForm_def newErrors_unchecked)
  moreover have "snd (validateForm unchecked_registration)"
    by (simp add: validateForm_passes_iff newErrors_unchecked)
  moreover have "list_ex is_SignUp (fst (handleSubmit no_errors unchecked_registration))"
    using reg newErrors_unchecked by (rule accepted_registration_signs_up)
  ultimately have stored: "\<not> isLogin unchecked_registration \<and>
      errors (fst (validateForm unchecked_registration)) Email = None \<and>
      snd (validateForm unchecked_registration) \<and>
      \<not> isChecking (emailValidation unchecked_registration) \<and>
      isValid (emailValidation unchecked_registration) \<noteq> Some True \<and>
      list_ex is_SignUp (fst (handleSubmit no_errors unchecked_registration))"
    using reg idle unknown by simp
  have cur: "current overlapping_checks = edited_registration"
    and pending: "in_flight overlapping_checks = [(Email, lit ''a@b.co'')]"
    by (simp_all add: overlapping_checks_eq)
  have reg': "\<not> isLogin edited_registration"
    and typed: "email (formData edited_registration) = lit ''a@b.co''"
    by (simp_all add: edited_registration_def checked_registration_def
        unchecked_registration_def filled_form_def)
  have "errors (fst (validateForm edited_registration)) Email = None"
    by (simp add: validateForm_def newErrors_edited)
  moreover have "snd (validateForm edited_registration)"
    by (simp add: validateForm_passes_iff newErrors_edited)
  moreover have "list_ex is_SignUp (fst (handleSubmit no_errors edited_registration))"
    using reg' newErrors_edited by (rule accepted_registration_signs_up)
  ultimately have race: "in_flight overlapping_checks = [(Email, lit ''a@b.co'')] \<and>
      email (formData (current overlapping_checks)) = lit ''a@b.co'' \<and>
      \<not> isLogin (current overlapping_checks) \<and>
      errors (fst (validateForm (current overlapping_checks))) Email = None \<and>
      snd (validateForm (current overlapping_checks)) \<and>
      list_ex is_SignUp (fst (handleSubmit no_errors (current overlapping_checks)))"
    using cur pending reg' typed by simp
  from stored race show ?thesis by (simp only: simp_thms)
qed

text \<open>
  Claim C6, amended. In registration mode the email field passes validation only if, in
  the availability state stored for the email, the \<open>isChecking\<close> flag is clear and the
  verdict is not negative (it is affirmative, or none is stored); a submission that
  reaches the sign-up call is in registration mode, with that flag clear and that verdict
  not negative. The stored state is the one written by the last edit or the last check
  to settle: it does not tell whether a check is still in flight.
\<close>

theorem email_verdict_registration:
  "(\<not> isLogin s \<and> errors (fst (validateForm s)) Email = None \<longrightarrow>
      \<not> isChecking (emailValidation s) \<and> isValid (emailValidation s) \<noteq> Some False) \<and>
   (list_ex is_SignUp (fst (handleSubmit ev s)) \<longrightarrow>
      \<not> isLogin s \<and> \<not> isChecking (emailValidation s) \<and>
      isValid (emailValidation s) \<noteq> Some False)"
proof -
  have field: "\<not> isChecking (emailValidation s) \<and> isValid (emailValidation s) \<noteq> Some False"
    if "\<not> isLogin s" and "newErrors s Email = None"
    using that by (simp add: newErrors_email_register)
  have first: "\<not> isLogin s \<and> errors (fst (validateForm s)) Email = None \<longrightarrow>
      \<not> isChecking (emailValidation s) \<and> isValid (emailValidation s) \<noteq> Some False"
    using field by (simp add: validateForm_def)
  have second: "\<not> isLogin s \<and> \<not> isChecking (emailValidation s) \<and>
      isValid (emailValidation s) \<noteq> Some False"
    if "list_ex is_SignUp (fst (handleSubmit ev s))"
  proof -
    from that have reg: "\<not> isLogin s" and ok: "snd (validateForm s)"
      using signup_needs_valid_register by blast+
    from ok have "newErrors s Email = None" by (simp add: validateForm_passes_iff)
    with reg field show ?thesis by blast
  qed
  from first second show ?thesis by blast
qed

theorem email_verdict_registration_witness:
  "\<not> isLogin checked_registration \<and>
   errors (fst (validateForm checked_registration)) Email = None \<and>
   list_ex is_SignUp (fst (handleSubmit no_errors checked_registration)) \<and>
   \<not> isChecking (emailValidation checked_registration) \<and>
   isValid (emailValidation checked_registration) \<noteq> Some False"
proof -
  have reg: "\<not> isLogin checked_registration"
    by (simp add: checked_registration_def unchecked_registration_def)
  have field: "errors (fst (validateForm checked_registration)) Email = None"
    by (simp add: validateForm_def newErrors_checked)
  have call: "list_ex is_SignUp (fst (handleSubmit no_errors checked_registration))"
    using reg newErrors_checked by (rule accepted_registration_signs_up)
  from reg field call email_verdict_registration [of checked_registration no_errors]
  show ?thesis by blast
qed

text \<open>
  Claim C9. In login mode any non-empty password passes the password check, and neither
  the errors nor the outcome of validation depend on the two availability states; in
  registration mode a non-empty password passes exactly when it meets all five criteria.
\<close>

theorem login_mode_validation:
  "(isLogin s \<and> password (formData s) \<noteq> [] \<longrightarrow>
      errors (fst (validateForm s)) Password = None) \<and>
   (isLogin s \<longrightarrow>
      errors (fst (validateForm (s\<lparr>emailValidation := ev, phoneValidation := pv\<rparr>)))
        = errors (fst (validateForm s)) \<and>
      snd (validateForm (s\<lparr>emailValidation := ev, phoneValidation := pv\<rparr>))
        = snd (validateForm s)) \<and>
   (\<not> isLogin s \<and> password (formData s) \<noteq> [] \<longrightarrow>
      (errors (fst (validateForm s)) Password = None) = validatePassword (password (formData s)))"
proof -
  have pw: "errors (fst (validateForm s)) Password = newErrors s Password" for s
    by (simp add: validateForm_def)
  have indep: "newErrors (s\<lparr>emailValidation := ev, phoneValidation := pv\<rparr>) = newErrors s"
    if "isLogin s"
    using that by (simp add: newErrors_def Let_def email_errors_def password_errors_def)
  show ?thesis
    using indep by (simp add: pw newErrors_password) (simp add: validateForm_def)
qed

theorem login_mode_validation_witness:
  "isLogin login_form \<and> password (formData login_form) \<noteq> [] \<and>
   \<not> validatePassword (password (formData login_form)) \<and>
   errors (fst (validateForm login_form)) Password = None \<and>
   snd (validateForm (login_form\<lparr>emailValidation :=
          \<lparr>isChecking = True, isValid = Some False, message = lit ''This email is already registered''\<rparr>,
        phoneValidation := \<lparr>isChecking = True, isValid = Some False, message = []\<rparr>\<rparr>))
     = snd (validateForm login_form) \<and>
   \<not> isLogin checked_registration \<and> password (formData checked_registration) \<noteq> [] \<and>
   errors (fst (validateForm checked_registration)) Password = None"
proof -
  have mode: "isLogin login_form" and pw: "password (formData login_form) \<noteq> []"
    by (simp_all add: login_form_def initial_state_def lit_nonempty)
  have weak: "\<not> validatePassword (password (formData login_form))"
    by (simp add: login_form_def validatePassword_def calculatePasswordStrength_def
        password_checks_def test_class_def Let_def lit_def)
  have reg: "\<not> isLogin checked_registration"
    and rpw: "password (formData checked_registration) = lit ''Passw0rd!''"
    by (simp_all add: checked_registration_def unchecked_registration_def filled_form_def)
  from mode pw weak reg rpw sample_password_valid
    login_mode_validation [of login_form] login_mode_validation [of checked_registration]
  show ?thesis by (simp add: lit_nonempty)
qed

subsection \<open>Errors of the identity provider at login\<close>

lemma login_failed_title: "title (loginFailedDialog err) = lit ''Login Failed''"
  by (simp add: loginFailedDialog_def plain_dialog_def)

lemma other_titles:
  "title resendOfferDialog \<noteq> lit ''Login Failed''"
  "title (resendFailedDialog rerr) \<noteq> lit ''Login Failed''"
  "title verificationSentDialog \<noteq> lit ''Login Failed''"
  by (simp_all add: resendOfferDialog_def resendFailedDialog_def verificationSentDialog_def
      plain_dialog_def lit_def)

lemma login_flow_unconfirmed:
  assumes "signInError ev = Some err" and "error_message err = lit ''Email not confirmed''"
  shows "hd (shown (fst (login_flow ev s))) = resendOfferDialog \<and>
         \<not> list_ex (\<lambda>d. title d = lit ''Login Failed'') (shown (fst (login_flow ev s)))"
  using assms other_titles
  by (simp add: login_flow_def Let_def split: option.splits)

lemma login_flow_other_error:
  assumes "signInError ev = Some err" and "error_message err \<noteq> lit ''Email not confirmed''"
  shows "shown (fst (login_flow ev s)) = [loginFailedDialog err]"
  using assms by (simp add: login_flow_def Let_def)

text \<open>
  Claim C7. For a login submission that passes validation and to which the identity
  provider answers with an error: when the message is exactly \<open>Email not confirmed\<close> the
  first notification is the offer to resend the verification email, and no notification
  titled \<open>Login Failed\<close> is shown; for any other message the one notification shown is the
  \<open>Login Failed\<close> one.
\<close>

theorem unconfirmed_email_dialog:
  assumes "isLogin s" and "snd (validateForm s)" and "signInError ev = Some err"
  shows "(error_message err = lit ''Email not confirmed'' \<longrightarrow>
            hd (shown (fst (handleSubmit ev s))) = resendOfferDialog \<and>
            \<not> list_ex (\<lambda>d. title d = lit ''Login Failed'') (shown (fst (handleSubmit ev s)))) \<and>
         (error_message err \<noteq> lit ''Email not confirmed'' \<longrightarrow>
            shown (fst (handleSubmit ev s)) = [loginFailedDialog err] \<and>
            title (loginFailedDialog err) = lit ''Login Failed'')"
proof -
  have "fst (handleSubmit ev s) = fst (login_flow ev ((fst (validateForm s))\<lparr>isLoading := True\<rparr>))"
    using assms(1,2) by (simp add: handleSubmit_accepted)
  then show ?thesis
    using login_flow_unconfirmed [OF assms(3)] login_flow_other_error [OF assms(3)]
      login_failed_title
    by simp
qed

theorem unconfirmed_email_dialog_witness:
  "isLogin login_form \<and> snd (validateForm login_form) \<and>
   hd (shown (fst (handleSubmit
      (no_errors\<lparr>signInError := Some (AuthError (lit ''Email not confirmed''))\<rparr>) login_form)))
     = resendOfferDialog \<and>
   shown (fst (handleSubmit
      (no_errors\<lparr>signInError := Some (AuthError (lit ''Invalid login credentials''))\<rparr>) login_form))
     = [loginFailedDialog (AuthError (lit ''Invalid login credentials''))]"
proof -
  have mode: "isLogin login_form" by (simp add: login_form_def initial_state_def)
  have ok: "snd (validateForm login_form)"
    by (simp add: validateForm_passes_iff newErrors_login_form)
  have differ: "lit ''Invalid login credentials'' \<noteq> lit ''Email not confirmed''"
    by (simp add: lit_def)
  have e1: "signInError (no_errors\<lparr>signInError := Some (AuthError (lit ''Email not confirmed''))\<rparr>)
      = Some (AuthError (lit ''Email not confirmed''))" by simp
  have e2: "signInError (no_errors\<lparr>signInError := Some (AuthError (lit ''Invalid login credentials''))\<rparr>)
      = Some (AuthError (lit ''Invalid login credentials''))" by simp
  from unconfirmed_email_dialog [OF mode ok e1] unconfirmed_email_dialog [OF mode ok e2]
    mode ok differ
  show ?thesis by simp
qed

section \<open>Switching between login and registration\<close>

lemma resetForm_is_reset: "is_reset (resetForm s)"
  by (simp add: is_reset_def resetForm_def empty_form_def unknown_validation_def)

lemma resetForm_idempotent: "resetForm (resetForm s) = resetForm s"
  by (simp add: resetForm_def)

lemma toggleMode_resets:
  "is_reset (toggleMode s) \<and> isLogin (toggleMode s) = (\<not> isLogin s)"
  by (simp add: toggleMode_def is_reset_def resetForm_def empty_form_def unknown_validation_def)

text \<open>
  Claim C8. Switching mode with \<open>toggleMode\<close> resets the form, and the reset is
  idempotent (the three lemmas above). The Login tab switches mode too, and leaves the
  form as it is: from a filled registration form it arrives in login mode with the
  fields, the touched marks and the availability verdict unchanged.
\<close>

theorem loginTab_keeps_form:
  "\<not> isLogin edited_registration \<and>
   isLogin (loginTab_onClick edited_registration) \<and>
   formData (loginTab_onClick edited_registration) = filled_form \<and>
   touchedFields (loginTab_onClick edited_registration) Email = Some True \<and>
   isValid (emailValidation (loginTab_onClick edited_registration)) = Some True \<and>
   \<not> is_reset (loginTab_onClick edited_registration) \<and>
   is_reset (toggleMode edited_registration)"
proof -
  have "touchedFields (loginTab_onClick edited_registration) Email = Some True"
    by (simp add: loginTab_onClick_def edited_registration_def checked_registration_def
      unchecked_registration_def initial_state_def)
  then have "touchedFields (loginTab_onClick edited_registration) \<noteq> Map.empty"
    by auto
  then have "\<not> is_reset (loginTab_onClick edited_registration)"
    by (simp add: is_reset_def)
  then show ?thesis
    using toggleMode_resets [of edited_registration]
    by (simp add: loginTab_onClick_def edited_registration_def checked_registration_def
      unchecked_registration_def initial_state_def)
qed

end
